theory Spec2Isabelle
  imports Complex_Main "HOL-Library.Word"
begin

section \<open>JavaScript values shared by both components\<close>

text \<open>
  A JavaScript string is a sequence of UTF-16 code units: \<open>length\<close> counts code units and
  \<open>substring\<close> cuts between them. String literals of the source are ASCII and are
  injected with \<open>lit\<close>.
\<close>

type_synonym code_unit = "16 word"
type_synonym jsstring = "code_unit list"

definition lit :: "string \<Rightarrow> jsstring" where
  "lit s = map (\<lambda>c. of_nat (of_char c)) s"

text \<open>The translation lookup \<open>t(key)\<close> of react-i18next is a parameter of every operation.\<close>

type_synonym translate = "string \<Rightarrow> jsstring"

section \<open>CollapsibleContent\<close>

text \<open>
  \<open>String.prototype.substring(start, end)\<close> on integer arguments: both indices are clamped
  to \<open>[0, length]\<close> and swapped when the first exceeds the second.
\<close>

definition clampIndex :: "jsstring \<Rightarrow> int \<Rightarrow> nat" where
  "clampIndex s i = (if i < 0 then 0 else min (nat i) (length s))"

definition substring :: "jsstring \<Rightarrow> int \<Rightarrow> int \<Rightarrow> jsstring" where
  "substring s start fin =
     (let a = clampIndex s start; b = clampIndex s fin;
          lo = min a b; hi = max a b
      in take (hi - lo) (drop lo s))"

text \<open>
  \<open>Math.ceil(content.length / 1024)\<close>: the division is by a power of two and therefore
  exact in binary floating point, so the result is the ceiling of the rational quotient.
\<close>

definition sizeKB :: "jsstring \<Rightarrow> nat" where
  "sizeKB content = (length content + 1023) div 1024"

text \<open>React renders a numeric child as its decimal representation.\<close>

fun decimal :: "nat \<Rightarrow> jsstring" where
  "decimal n =
     (if n < 10 then [of_nat (48 + n)]
      else decimal (n div 10) @ [of_nat (48 + n mod 10)])"

declare decimal.simps [simp del]

text \<open>
  The rendered tree. An element carries its class name, a button also its \<open>title\<close> and
  its click handler; both handlers of the component call \<open>e.stopPropagation()\<close> and
  then \<open>setIsExpanded\<close> with a constant.
\<close>

datatype click_handler = SetIsExpanded bool

datatype node =
    Text jsstring
  | Span jsstring "node list"
  | Pre jsstring "node list"
  | Button jsstring jsstring click_handler "node list"

text \<open>The class names of \<open>CollapsibleContent.module.scss\<close> are parameters.\<close>

record styles =
  collapsibleWrapper :: jsstring
  expandedContent :: jsstring
  contentBlock :: jsstring
  toggleButton :: jsstring
  collapsedContent :: jsstring
  preview :: jsstring

record CollapsibleContentProps =
  content :: jsstring
  maxPreviewLength :: "int option"
  className :: "jsstring option"

text \<open>
  \<open>formatContent\<close>: \<open>JSON.parse\<close> and \<open>JSON.stringify(_, null, 2)\<close> are built-ins of the
  platform and enter as parameters; \<open>parse\<close> returns \<open>None\<close> where \<open>JSON.parse\<close> throws.
  \<open>JSON.stringify\<close> returns a string on every value that \<open>JSON.parse\<close> produces.
\<close>

definition formatContent :: "(jsstring \<Rightarrow> 'v option) \<Rightarrow> ('v \<Rightarrow> jsstring) \<Rightarrow> jsstring \<Rightarrow> jsstring" where
  "formatContent parse stringify2 text =
     (case parse text of
        Some parsed \<Rightarrow> stringify2 parsed
      | None \<Rightarrow> text)"

text \<open>
  The defaults of the destructured props: \<open>maxPreviewLength = 200\<close>, \<open>className = ''\<close>.
  \<open>maxPreviewLength\<close> is taken over the integers.
\<close>

definition maxPreviewLengthOf :: "CollapsibleContentProps \<Rightarrow> int" where
  "maxPreviewLengthOf props = (case maxPreviewLength props of None \<Rightarrow> 200 | Some m \<Rightarrow> m)"

definition classNameOf :: "CollapsibleContentProps \<Rightarrow> jsstring" where
  "classNameOf props = (case className props of None \<Rightarrow> [] | Some c \<Rightarrow> c)"

text \<open>
  The component as a function of its props and of the value of the \<open>useState(false)\<close> cell.
\<close>

definition CollapsibleContent ::
  "(jsstring \<Rightarrow> 'v option) \<Rightarrow> ('v \<Rightarrow> jsstring) \<Rightarrow> translate \<Rightarrow> styles \<Rightarrow>
   CollapsibleContentProps \<Rightarrow> bool \<Rightarrow> node" where
  "CollapsibleContent parse stringify2 t st props isExpanded =
     (if int (length (content props)) \<le> maxPreviewLengthOf props
      then Span (classNameOf props) [Text (content props)]
      else
        let formattedContent = formatContent parse stringify2 (content props);
            pv = substring (content props) 0 (maxPreviewLengthOf props)
        in Span (collapsibleWrapper st @ lit '' '' @ classNameOf props)
             [if isExpanded then
                Span (expandedContent st)
                  [Pre (contentBlock st) [Text formattedContent],
                   Button (toggleButton st) (t ''logs.collapse'') (SetIsExpanded False)
                     [Text (t ''logs.collapse'')]]
              else
                Span (collapsedContent st)
                  [Span (preview st) [Text pv, Text (lit ''...'')],
                   Button (toggleButton st) (t ''logs.expand'') (SetIsExpanded True)
                     [Text (t ''logs.expand''), Text (lit '' (''),
                      Text (decimal (sizeKB (content props))), Text (lit ''KB)'')]]])"

definition initialIsExpanded :: bool where
  "initialIsExpanded = False"

text \<open>
  Observations on a rendered tree: the text of a node, the toggle controls (buttons) in
  it, and the text it shows outside the toggle controls.
\<close>

fun textContent :: "node \<Rightarrow> jsstring" where
  "textContent (Text s) = s"
| "textContent (Span c ns) = concat (map textContent ns)"
| "textContent (Pre c ns) = concat (map textContent ns)"
| "textContent (Button c ti h ns) = concat (map textContent ns)"

fun buttons :: "node \<Rightarrow> node list" where
  "buttons (Text s) = []"
| "buttons (Span c ns) = concat (map buttons ns)"
| "buttons (Pre c ns) = concat (map buttons ns)"
| "buttons (Button c ti h ns) = [Button c ti h ns]"

fun shownText :: "node \<Rightarrow> jsstring" where
  "shownText (Text s) = s"
| "shownText (Span c ns) = concat (map shownText ns)"
| "shownText (Pre c ns) = concat (map shownText ns)"
| "shownText (Button c ti h ns) = []"

text \<open>
  A click on the toggle runs the handler of the button of the current tree; a tree without
  a button leaves the state cell alone.
\<close>

definition clickToggle :: "node \<Rightarrow> bool \<Rightarrow> bool" where
  "clickToggle view isExpanded =
     (case buttons view of
        Button c ti (SetIsExpanded b) ns # rest \<Rightarrow> b
      | _ \<Rightarrow> isExpanded)"

section \<open>QuotaPage\<close>

subsection \<open>Data\<close>

text \<open>
  \<open>AuthFileItem\<close> (declared in \<open>@/types\<close>): the page reads only \<open>name\<close>; everything the
  provider predicates look at is kept in \<open>attrs\<close>.
\<close>

record 'f AuthFileItem =
  name :: jsstring
  attrs :: 'f

text \<open>
  A value caught by \<open>catch (err: unknown)\<close>. The handlers test \<open>err instanceof Error\<close>,
  read \<open>err.message\<close> of an \<open>Error\<close> and read \<open>(err as any)?.status\<close> of anything;
  nothing else of the thrown value is looked at.
\<close>

datatype js_thrown =
    ErrorInstance jsstring "int option"
  | OtherValue "int option"

definition errorMessageOr :: "translate \<Rightarrow> string \<Rightarrow> js_thrown \<Rightarrow> jsstring" where
  "errorMessageOr t key err =
     (case err of ErrorInstance m s \<Rightarrow> m | OtherValue s \<Rightarrow> t key)"

definition thrownStatus :: "js_thrown \<Rightarrow> int option" where
  "thrownStatus err = (case err of ErrorInstance m s \<Rightarrow> s | OtherValue s \<Rightarrow> s)"

text \<open>
  The value \<open>authFilesApi.list()\<close> resolves to: \<open>null\<close>/\<open>undefined\<close>, or an object whose
  \<open>files\<close> field may be absent. \<open>filesOf\<close> is \<open>data?.files || []\<close>.
\<close>

datatype 'f list_response = NoData | Data "'f AuthFileItem list option"

definition filesOf :: "'f list_response \<Rightarrow> 'f AuthFileItem list" where
  "filesOf data =
     (case data of NoData \<Rightarrow> [] | Data None \<Rightarrow> [] | Data (Some fs) \<Rightarrow> fs)"

text \<open>
  A provider configuration (the constants \<open>ANTIGRAVITY_CONFIG\<close>, \<open>CODEX_CONFIG\<close>,
  \<open>GEMINI_CLI_CONFIG\<close>, \<open>CLAUDE_CONFIG\<close> of \<open>@/components/quota\<close> are parameters).
  \<open>fetchQuota\<close> gives the outcome of the promise for a file: \<open>Inl\<close> a rejection.
\<close>

record ('f, 'd, 'q) QuotaConfig =
  storeSetter :: string
  filterFn :: "'f AuthFileItem \<Rightarrow> bool"
  fetchQuota :: "'f AuthFileItem \<Rightarrow> js_thrown + 'd"
  buildLoadingState :: 'q
  buildSuccessState :: "'d \<Rightarrow> 'q"
  buildErrorState :: "jsstring \<Rightarrow> int option \<Rightarrow> 'q"

datatype abort_closure = SetAborted

datatype request =
    ReqConfigYaml
  | ReqAuthFilesList
  | ReqQuota string jsstring

text \<open>
  The quota maps are plain JavaScript objects: own properties, and a prototype, which is
  \<open>Object.prototype\<close> (\<open>None\<close>) unless an assignment to \<open>__proto__\<close> has replaced it by a
  display state.
  \<^item> \<open>{ ...prev }\<close> is a fresh object with the own properties of \<open>prev\<close>; its prototype is
    \<open>Object.prototype\<close> whatever the prototype of \<open>prev\<close> is.
  \<^item> \<open>o[k] = v\<close> creates or updates the own property \<open>k\<close>, except for \<open>k = '__proto__'\<close>
    when that is not an own property: the assignment then reaches the accessor inherited
    from \<open>Object.prototype\<close>, which makes \<open>v\<close> the prototype of \<open>o\<close> and creates no
    property (the display states are objects).
  \<^item> \<open>entryAt o k\<close> is the display state a read \<open>o[k]\<close> returns: the own property, or for
    \<open>__proto__\<close> the prototype set through the accessor. Members a read inherits from
    \<open>Object.prototype\<close> or from a display state are not display states stored by the page
    and are left out.
\<close>

record 'q jsobject =
  own :: "jsstring \<rightharpoonup> 'q"
  proto :: "'q option"

definition emptyObject :: "'q jsobject" where
  "emptyObject = \<lparr>own = Map.empty, proto = None\<rparr>"

definition spread :: "'q jsobject \<Rightarrow> 'q jsobject" where
  "spread prev = \<lparr>own = own prev, proto = None\<rparr>"

definition setProp :: "'q jsobject \<Rightarrow> jsstring \<Rightarrow> 'q \<Rightarrow> 'q jsobject" where
  "setProp obj k v =
     (if k = lit ''__proto__'' \<and> own obj k = None then obj\<lparr>proto := Some v\<rparr>
      else obj\<lparr>own := (own obj)(k \<mapsto> v)\<rparr>)"

definition entryAt :: "'q jsobject \<Rightarrow> jsstring \<Rightarrow> 'q option" where
  "entryAt obj k =
     (case own obj k of
        Some v \<Rightarrow> Some v
      | None \<Rightarrow> if k = lit ''__proto__'' then proto obj else None)"

text \<open>
  Everything the page reads and writes: its five state cells, the connection status of the
  auth store, the quota store (one object keyed by file name per setter) and the log of
  the requests issued so far.
\<close>

record ('f, 'q) world =
  files :: "'f AuthFileItem list"
  loading :: bool
  error :: jsstring
  refreshingAll :: bool
  refreshAllAbortRef :: "abort_closure option"
  connectionStatus :: jsstring
  quotaStore :: "string \<Rightarrow> 'q jsobject"
  requests :: "request list"

definition disableControls :: "('f, 'q) world \<Rightarrow> bool" where
  "disableControls w = (connectionStatus w \<noteq> lit ''connected'')"

text \<open>
  The points at which \<open>refreshAllQuotas\<close> is suspended, and the environment of one run:
  the outcomes of the two page-level requests and, for each suspension, whether the stored
  abort closure is invoked while the routine waits there.
\<close>

datatype await_point = AwaitConfig | AwaitList | AwaitQuota nat

record 'f env =
  configYaml :: "js_thrown + unit"
  authFiles :: "js_thrown + 'f list_response"
  abortDuring :: "await_point \<Rightarrow> bool"

definition awaitAt :: "'f env \<Rightarrow> await_point \<Rightarrow> bool \<Rightarrow> bool" where
  "awaitAt e p aborted = (aborted \<or> abortDuring e p)"

subsection \<open>loadConfig and loadFiles\<close>

text \<open>
  Each asynchronous routine is split at its \<open>await\<close>: the part that runs when it is called
  and the part that runs when the request settles, on the state of that moment (the
  setters are applied to the current state, \<open>setError((prev) => prev || errorMessage)\<close>
  in particular). The result of \<open>loadConfig\<close> is a sum so that an exception leaving the
  routine would be a value \<open>Inl\<close>.
\<close>

definition loadConfig_call :: "('f, 'q) world \<Rightarrow> ('f, 'q) world" where
  "loadConfig_call w = w\<lparr>requests := requests w @ [ReqConfigYaml]\<rparr>"

definition loadConfig_settle ::
  "translate \<Rightarrow> js_thrown + unit \<Rightarrow> ('f, 'q) world \<Rightarrow> js_thrown + ('f, 'q) world" where
  "loadConfig_settle t outcome w =
     (case outcome of
        Inr u \<Rightarrow> Inr w
      | Inl err \<Rightarrow>
          (let errorMessage = errorMessageOr t ''notification.refresh_failed'' err
           in Inr (w\<lparr>error := (if error w \<noteq> [] then error w else errorMessage)\<rparr>)))"

definition loadConfig ::
  "translate \<Rightarrow> js_thrown + unit \<Rightarrow> ('f, 'q) world \<Rightarrow> js_thrown + ('f, 'q) world" where
  "loadConfig t outcome w = loadConfig_settle t outcome (loadConfig_call w)"

definition loadFiles_call :: "('f, 'q) world \<Rightarrow> ('f, 'q) world" where
  "loadFiles_call w =
     w\<lparr>loading := True, error := [], requests := requests w @ [ReqAuthFilesList]\<rparr>"

definition loadFiles_settle ::
  "translate \<Rightarrow> js_thrown + 'f list_response \<Rightarrow> ('f, 'q) world \<Rightarrow> ('f, 'q) world" where
  "loadFiles_settle t outcome w =
     (let w' = (case outcome of
                  Inr data \<Rightarrow> w\<lparr>files := filesOf data\<rparr>
                | Inl err \<Rightarrow>
                    w\<lparr>error := errorMessageOr t ''notification.refresh_failed'' err\<rparr>)
      in w'\<lparr>loading := False\<rparr>)"

definition loadFiles ::
  "translate \<Rightarrow> js_thrown + 'f list_response \<Rightarrow> ('f, 'q) world \<Rightarrow> ('f, 'q) world" where
  "loadFiles t outcome w = loadFiles_settle t outcome (loadFiles_call w)"

subsection \<open>refreshAllQuotas\<close>

text \<open>
  Modelled from the spec: the quota store \<open>useQuotaStore\<close> is not among the sources. It holds
  one map per provider category, and the setter selected by \<open>config.storeSetter\<close> replaces
  that map by the object the updater returns for it.
\<close>

definition callSetter ::
  "string \<Rightarrow> ('q jsobject \<Rightarrow> 'q jsobject) \<Rightarrow> ('f, 'q) world \<Rightarrow> ('f, 'q) world" where
  "callSetter key updater w =
     w\<lparr>quotaStore := (quotaStore w)(key := updater (quotaStore w key))\<rparr>"

text \<open>
  The first updater: \<open>nextState = { ...prev }\<close>, then for every filtered file in order
  \<open>nextState[file.name] = config.buildLoadingState()\<close>.
\<close>

definition markLoading ::
  "('f, 'd, 'q) QuotaConfig \<Rightarrow> 'f AuthFileItem list \<Rightarrow> 'q jsobject \<Rightarrow> 'q jsobject" where
  "markLoading config filteredFiles prev =
     fold (\<lambda>file nextState. setProp nextState (name file) (buildLoadingState config))
       filteredFiles (spread prev)"

text \<open>The value one element of the \<open>Promise.all\<close> resolves to; it never rejects.\<close>

datatype 'd fetch_result =
    Success jsstring 'd
  | Failure jsstring jsstring "int option"

definition resultName :: "'d fetch_result \<Rightarrow> jsstring" where
  "resultName r = (case r of Success n d \<Rightarrow> n | Failure n m s \<Rightarrow> n)"

definition fetchOne ::
  "translate \<Rightarrow> ('f, 'd, 'q) QuotaConfig \<Rightarrow> 'f AuthFileItem \<Rightarrow> 'd fetch_result" where
  "fetchOne t config file =
     (case fetchQuota config file of
        Inr data \<Rightarrow> Success (name file) data
      | Inl err \<Rightarrow>
          Failure (name file) (errorMessageOr t ''common.unknown_error'' err)
            (thrownStatus err))"

text \<open>
  The second updater: \<open>nextState = { ...prev }\<close>, then for every result in order
  \<open>nextState[result.name] = ...\<close>, the value coming from the success builder or from the
  error builder with \<open>result.error || t('common.unknown_error')\<close>.
\<close>

definition resultState :: "translate \<Rightarrow> ('f, 'd, 'q) QuotaConfig \<Rightarrow> 'd fetch_result \<Rightarrow> 'q" where
  "resultState t config result =
     (case result of
        Success n data \<Rightarrow> buildSuccessState config data
      | Failure n e s \<Rightarrow>
          buildErrorState config (if e \<noteq> [] then e else t ''common.unknown_error'') s)"

definition mergeResults ::
  "translate \<Rightarrow> ('f, 'd, 'q) QuotaConfig \<Rightarrow> 'd fetch_result list \<Rightarrow>
   'q jsobject \<Rightarrow> 'q jsobject" where
  "mergeResults t config results prev =
     fold (\<lambda>result nextState. setProp nextState (resultName result) (resultState t config result))
       results (spread prev)"

text \<open>
  Every \<open>config.fetchQuota(file, t)\<close> is called while \<open>filteredFiles.map\<close> runs, before the
  routine is suspended on the \<open>Promise.all\<close>.
\<close>

definition issueQuotaRequests ::
  "('f, 'd, 'q) QuotaConfig \<Rightarrow> 'f AuthFileItem list \<Rightarrow> ('f, 'q) world \<Rightarrow> ('f, 'q) world" where
  "issueQuotaRequests config filteredFiles w =
     w\<lparr>requests := requests w @ map (\<lambda>file. ReqQuota (storeSetter config) (name file)) filteredFiles\<rparr>"

text \<open>
  One pass of the loop body for a configuration with matching files: loading marks, the
  fetches, the suspension, the check of \<open>aborted\<close> and the merge. It returns the value of
  \<open>aborted\<close> after the suspension; when that is set the pass ends in \<open>break\<close>.
\<close>

definition providerPass ::
  "'f env \<Rightarrow> translate \<Rightarrow> nat \<Rightarrow> ('f, 'd, 'q) QuotaConfig \<Rightarrow> 'f AuthFileItem list \<Rightarrow>
   ('f, 'q) world \<Rightarrow> bool \<times> ('f, 'q) world" where
  "providerPass e t i config filteredFiles w =
     (let w1 = callSetter (storeSetter config) (markLoading config filteredFiles) w;
          w2 = issueQuotaRequests config filteredFiles w1;
          results = map (fetchOne t config) filteredFiles;
          aborted = awaitAt e (AwaitQuota i) False
      in if aborted then (aborted, w2)
         else (aborted, callSetter (storeSetter config) (mergeResults t config results) w2))"

text \<open>
  The loop over the configurations, with the index of the current one (it names the
  suspension point). The result is the value of \<open>aborted\<close> at the exit and the state.
\<close>

fun refreshLoop ::
  "'f env \<Rightarrow> translate \<Rightarrow> nat \<Rightarrow> ('f, 'd, 'q) QuotaConfig list \<Rightarrow> 'f AuthFileItem list \<Rightarrow>
   bool \<Rightarrow> ('f, 'q) world \<Rightarrow> bool \<times> ('f, 'q) world" where
  "refreshLoop e t i [] filesList aborted w = (aborted, w)"
| "refreshLoop e t i (config # rest) filesList aborted w =
     (if aborted then (aborted, w)
      else
        let filteredFiles = filter (filterFn config) filesList
        in if length filteredFiles = 0 then refreshLoop e t (i + 1) rest filesList aborted w
           else
             (case providerPass e t i config filteredFiles w of
                (aborted', w') \<Rightarrow>
                  if aborted' then (aborted', w')
                  else refreshLoop e t (i + 1) rest filesList aborted' w'))"

text \<open>
  The body of the \<open>try\<close> block: the value of \<open>aborted\<close> when control leaves it, the
  exception that leaves it (if any) and the state.
\<close>

definition refreshBody ::
  "'f env \<Rightarrow> translate \<Rightarrow> ('f, 'd, 'q) QuotaConfig list \<Rightarrow> ('f, 'q) world \<Rightarrow>
   bool \<times> js_thrown option \<times> ('f, 'q) world" where
  "refreshBody e t configs w =
     (case loadConfig t (configYaml e) w of
        Inl err \<Rightarrow> (awaitAt e AwaitConfig False, Some err, loadConfig_call w)
      | Inr w1 \<Rightarrow>
          let aborted = awaitAt e AwaitConfig False
          in if aborted then (aborted, None, w1)
             else
               let w2 = w1\<lparr>requests := requests w1 @ [ReqAuthFilesList]\<rparr>;
                   aborted = awaitAt e AwaitList aborted
               in (case authFiles e of
                     Inl err \<Rightarrow> (aborted, Some err, w2)
                   | Inr latestFiles \<Rightarrow>
                       (let filesList = filesOf latestFiles
                        in if aborted then (aborted, None, w2)
                           else
                             (let w3 = w2\<lparr>files := filesList\<rparr>;
                                  (aborted, w4) = refreshLoop e t 0 configs filesList aborted w3
                              in (aborted, None, w4)))))"

definition refreshAllQuotas ::
  "'f env \<Rightarrow> translate \<Rightarrow> ('f, 'd, 'q) QuotaConfig list \<Rightarrow> ('f, 'q) world \<Rightarrow> ('f, 'q) world" where
  "refreshAllQuotas e t configs w =
     (if refreshingAll w \<or> disableControls w then w
      else
        let w0 = w\<lparr>refreshingAll := True, error := [], refreshAllAbortRef := Some SetAborted\<rparr>;
            (aborted, thrown, w1) = refreshBody e t configs w0;
            w2 = (case thrown of
                    None \<Rightarrow> w1
                  | Some err \<Rightarrow>
                      w1\<lparr>error := errorMessageOr t ''notification.refresh_failed'' err\<rparr>)
        in if \<not> aborted then w2\<lparr>refreshingAll := False, refreshAllAbortRef := None\<rparr>
           else w2)"

section \<open>Concrete instances of the parameters\<close>

text \<open>
  The definitions are run on these. Display states follow the data model: loading, success
  with the quota data, error with a message and an optional status code. The translation
  used with them is \<open>lit\<close>, which returns the key itself.
\<close>

datatype 'd quota_state = QLoading | QSuccess 'd | QError jsstring "int option"

definition exampleConfig ::
  "string \<Rightarrow> string \<Rightarrow> (string AuthFileItem \<Rightarrow> js_thrown + nat) \<Rightarrow>
   (string, nat, nat quota_state) QuotaConfig" where
  "exampleConfig setter provider fetch =
     \<lparr>storeSetter = setter, filterFn = (\<lambda>file. attrs file = provider), fetchQuota = fetch,
      buildLoadingState = QLoading, buildSuccessState = QSuccess, buildErrorState = QError\<rparr>"

definition fetchSeven :: "string AuthFileItem \<Rightarrow> js_thrown + nat" where
  "fetchSeven file = Inr 7"

definition fetchTimeout :: "string AuthFileItem \<Rightarrow> js_thrown + nat" where
  "fetchTimeout file =
     (if name file = lit ''a.json'' then Inl (ErrorInstance (lit ''timeout'') (Some 503))
      else Inr 7)"

definition fetchEmptyMessage :: "string AuthFileItem \<Rightarrow> js_thrown + nat" where
  "fetchEmptyMessage file =
     (if name file = lit ''a.json'' then Inl (ErrorInstance [] (Some 503)) else Inr 7)"

definition exampleFiles :: "string AuthFileItem list" where
  "exampleFiles =
     [\<lparr>name = lit ''a.json'', attrs = ''codex''\<rparr>,
      \<lparr>name = lit ''b.json'', attrs = ''codex''\<rparr>,
      \<lparr>name = lit ''c.json'', attrs = ''claude''\<rparr>,
      \<lparr>name = lit ''d.json'', attrs = ''gemini-cli''\<rparr>]"

definition neverAbort :: "await_point \<Rightarrow> bool" where
  "neverAbort p = False"

definition abortOnlyDuring :: "await_point \<Rightarrow> await_point \<Rightarrow> bool" where
  "abortOnlyDuring p q = (q = p)"

text \<open>A listing in which a codex file is named \<open>__proto__\<close>.\<close>

definition protoNameEnv :: "string env" where
  "protoNameEnv =
     \<lparr>configYaml = Inr (),
      authFiles = Inr (Data (Some [\<lparr>name = lit ''__proto__'', attrs = ''codex''\<rparr>,
                                   \<lparr>name = lit ''a.json'', attrs = ''codex''\<rparr>])),
      abortDuring = neverAbort\<rparr>"

definition exampleEnv :: "(await_point \<Rightarrow> bool) \<Rightarrow> string env" where
  "exampleEnv ab =
     \<lparr>configYaml = Inr (), authFiles = Inr (Data (Some exampleFiles)), abortDuring = ab\<rparr>"

text \<open>A connected, idle page whose codex map still holds an entry of a file now gone.\<close>

definition exampleWorld :: "(string, nat quota_state) world" where
  "exampleWorld =
     \<lparr>files = [], loading = False, error = [], refreshingAll = False,
      refreshAllAbortRef = None, connectionStatus = lit ''connected'',
      quotaStore = (\<lambda>s. if s = ''setCodexQuota''
                         then \<lparr>own = [lit ''old.json'' \<mapsto> QSuccess 1], proto = None\<rparr>
                         else emptyObject),
      requests = []\<rparr>"

text \<open>The two JSON built-ins on the one JSON text used below, and class names.\<close>

definition exampleParse :: "jsstring \<Rightarrow> nat list option" where
  "exampleParse s = (if s = lit ''[1,2]'' then Some [1, 2] else None)"

definition exampleStringify :: "nat list \<Rightarrow> jsstring" where
  "exampleStringify v =
     (if v = [1, 2] then lit ''['' @ [10] @ lit ''  1,'' @ [10] @ lit ''  2'' @ [10] @ lit '']''
      else [])"

definition exampleStyles :: styles where
  "exampleStyles =
     \<lparr>collapsibleWrapper = lit ''collapsibleWrapper'', expandedContent = lit ''expandedContent'',
      contentBlock = lit ''contentBlock'', toggleButton = lit ''toggleButton'',
      collapsedContent = lit ''collapsedContent'', preview = lit ''preview''\<rparr>"

section \<open>Facts about strings and numbers\<close>

lemma lit_inj: "(lit a = lit b) = (a = b)"
proof -
  have "inj (\<lambda>c::char. (of_nat (of_char c) :: 16 word))"
  proof (rule injI)
    fix x y :: char
    assume "(of_nat (of_char x) :: 16 word) = of_nat (of_char y)"
    then have "take_bit 16 (of_char x :: nat) = take_bit 16 (of_char y :: nat)"
      by (simp add: word_of_nat_eq_iff)
    moreover have "(of_char c :: nat) < 2 ^ 16" for c
      by (rule less_trans[OF nat_of_char_less_256]) simp
    ultimately show "x = y" by (simp add: take_bit_nat_eq_self)
  qed
  then show ?thesis unfolding lit_def by (simp add: inj_map_eq_map)
qed

lemma substring_prefix: "substring s 0 m = take (nat m) s"
  by (auto simp: substring_def clampIndex_def Let_def min_def max_def)

lemma sizeKB_ceiling: "int (sizeKB c) = \<lceil>real (length c) / 1024\<rceil>"
proof -
  have "\<lceil>real (length c) / 1024\<rceil> = \<lceil>of_int (int (length c)) / of_int 1024 :: real\<rceil>"
    by simp
  also have "\<dots> = - (- int (length c) div 1024)"
    by (rule ceiling_divide_eq_div)
  also have "\<dots> = int ((length c + 1023) div 1024)"
    by linarith
  finally show ?thesis by (simp add: sizeKB_def)
qed

lemma decimal_digit: "n < 10 \<Longrightarrow> decimal n = [of_nat (48 + n)]"
  by (simp add: decimal.simps)

section \<open>CollapsibleContent: the rendered views\<close>

text \<open>
  C7. Let \<open>m\<close> be the \<open>maxPreviewLength\<close> prop, or 200 when the prop is absent. Content of
  length at most \<open>m\<close> is rendered as it is, in a single span, whatever the state cell
  holds, and the tree has no toggle control. Longer content, collapsed, shows its first
  \<open>m\<close> code units followed by \<open>...\<close>, and the text of its toggle is the expand label
  followed by the size \<open>ceil(length / 1024)\<close> in decimal and \<open>KB\<close>, in parentheses.
\<close>

theorem collapsible_plain_or_preview:
  "maxPreviewLength props = Some m \<or> maxPreviewLength props = None \<and> m = 200 \<Longrightarrow>
   (int (length (content props)) \<le> m \<longrightarrow>
      CollapsibleContent parse stringify2 t st props isExpanded
        = Span (case className props of None \<Rightarrow> [] | Some cls \<Rightarrow> cls) [Text (content props)]
      \<and> shownText (CollapsibleContent parse stringify2 t st props isExpanded) = content props
      \<and> buttons (CollapsibleContent parse stringify2 t st props isExpanded) = [])
   \<and> (m < int (length (content props)) \<longrightarrow>
      shownText (CollapsibleContent parse stringify2 t st props False)
        = take (nat m) (content props) @ lit ''...''
      \<and> map textContent (buttons (CollapsibleContent parse stringify2 t st props False))
        = [t ''logs.expand'' @ lit '' ('' @
             decimal (nat \<lceil>real (length (content props)) / 1024\<rceil>) @ lit ''KB)''])"
proof -
  assume "maxPreviewLength props = Some m \<or> maxPreviewLength props = None \<and> m = 200"
  then have m: "maxPreviewLengthOf props = m"
    by (auto simp: maxPreviewLengthOf_def)
  show ?thesis
    using sizeKB_ceiling[of "content props", symmetric]
    by (simp add: CollapsibleContent_def m classNameOf_def substring_prefix Let_def)
qed

text \<open>
  The example of the specification: 500 times \<open>x\<close> (code unit 120) with
  \<open>maxPreviewLength = 200\<close> previews as 200 times \<open>x\<close> and \<open>...\<close> with the size \<open>1KB\<close>.
  Without the prop, 201 code units are cut to 200 and 200 code units are rendered plain;
  with \<open>maxPreviewLength = 3\<close> the five code units of \<open>plain\<close> are cut to three.
\<close>

theorem collapsible_plain_or_preview_witness:
  "shownText (CollapsibleContent exampleParse exampleStringify lit exampleStyles
       \<lparr>content = replicate 500 120, maxPreviewLength = Some 200, className = None\<rparr> False)
     = replicate 200 120 @ lit ''...''
   \<and> map textContent (buttons (CollapsibleContent exampleParse exampleStringify lit exampleStyles
       \<lparr>content = replicate 500 120, maxPreviewLength = Some 200, className = None\<rparr> False))
     = [lit ''logs.expand'' @ lit '' ('' @ lit ''1'' @ lit ''KB)'']
   \<and> shownText (CollapsibleContent exampleParse exampleStringify lit exampleStyles
       \<lparr>content = replicate 201 120, maxPreviewLength = None, className = None\<rparr> False)
     = replicate 200 120 @ lit ''...''
   \<and> CollapsibleContent exampleParse exampleStringify lit exampleStyles
       \<lparr>content = replicate 200 120, maxPreviewLength = None, className = None\<rparr> False
     = Span [] [Text (replicate 200 120)]
   \<and> buttons (CollapsibleContent exampleParse exampleStringify lit exampleStyles
       \<lparr>content = replicate 200 120, maxPreviewLength = None, className = None\<rparr> True) = []
   \<and> shownText (CollapsibleContent exampleParse exampleStringify lit exampleStyles
       \<lparr>content = lit ''plain'', maxPreviewLength = Some 3, className = None\<rparr> False)
     = lit ''pla'' @ lit ''...''"
  using collapsible_plain_or_preview
          [of "\<lparr>content = replicate 500 120, maxPreviewLength = Some 200, className = None\<rparr>"
              200 exampleParse exampleStringify lit exampleStyles False]
        collapsible_plain_or_preview
          [of "\<lparr>content = replicate 201 120, maxPreviewLength = None, className = None\<rparr>"
              200 exampleParse exampleStringify lit exampleStyles False]
        collapsible_plain_or_preview
          [of "\<lparr>content = replicate 200 120, maxPreviewLength = None, className = None\<rparr>"
              200 exampleParse exampleStringify lit exampleStyles False]
        collapsible_plain_or_preview
          [of "\<lparr>content = replicate 200 120, maxPreviewLength = None, className = None\<rparr>"
              200 exampleParse exampleStringify lit exampleStyles True]
        collapsible_plain_or_preview
          [of "\<lparr>content = lit ''plain'', maxPreviewLength = Some 3, className = None\<rparr>"
              3 exampleParse exampleStringify lit exampleStyles False]
  by (simp add: decimal_digit lit_def)

text \<open>
  C8. For content longer than \<open>maxPreviewLength\<close> the expanded view shows
  \<open>JSON.stringify(JSON.parse(content), null, 2)\<close> when \<open>JSON.parse\<close> accepts the content
  and the content itself when it throws; its toggle is the collapse control.
\<close>

theorem collapsible_expanded_view:
  "maxPreviewLengthOf props < int (length (content props)) \<Longrightarrow>
     (parse (content props) = Some parsed \<longrightarrow>
        shownText (CollapsibleContent parse stringify2 t st props True) = stringify2 parsed)
     \<and> (parse (content props) = None \<longrightarrow>
        shownText (CollapsibleContent parse stringify2 t st props True) = content props)
     \<and> map textContent (buttons (CollapsibleContent parse stringify2 t st props True))
          = [t ''logs.collapse'']"
  by (simp add: CollapsibleContent_def formatContent_def Let_def)

theorem collapsible_expanded_view_witness:
  "shownText (CollapsibleContent exampleParse exampleStringify lit exampleStyles
       \<lparr>content = lit ''[1,2]'', maxPreviewLength = Some 3, className = None\<rparr> True)
     = lit ''['' @ [10] @ lit ''  1,'' @ [10] @ lit ''  2'' @ [10] @ lit '']''
   \<and> shownText (CollapsibleContent exampleParse exampleStringify lit exampleStyles
       \<lparr>content = lit ''plain'', maxPreviewLength = Some 3, className = None\<rparr> True)
     = lit ''plain''"
  using collapsible_expanded_view
          [of "\<lparr>content = lit ''[1,2]'', maxPreviewLength = Some 3, className = None\<rparr>"
              exampleParse "[1, 2]" exampleStringify lit exampleStyles]
        collapsible_expanded_view
          [of "\<lparr>content = lit ''plain'', maxPreviewLength = Some 3, className = None\<rparr>"
              exampleParse "[]" exampleStringify lit exampleStyles]
  by (simp add: maxPreviewLengthOf_def exampleParse_def exampleStringify_def lit_inj)
     (simp add: lit_def)

text \<open>
  C9. For content longer than \<open>maxPreviewLength\<close> the state cell starts collapsed, a click
  on the toggle of the current view negates it, and expanding and then collapsing from the
  initial state renders the initial collapsed tree again.
\<close>

theorem collapsible_toggle_round_trip:
  "maxPreviewLengthOf props < int (length (content props)) \<Longrightarrow>
     \<not> initialIsExpanded
     \<and> clickToggle (CollapsibleContent parse stringify2 t st props isExpanded) isExpanded
          = (\<not> isExpanded)
     \<and> CollapsibleContent parse stringify2 t st props
          (clickToggle (CollapsibleContent parse stringify2 t st props True)
             (clickToggle (CollapsibleContent parse stringify2 t st props initialIsExpanded)
                initialIsExpanded))
        = CollapsibleContent parse stringify2 t st props initialIsExpanded"
  by (simp add: CollapsibleContent_def clickToggle_def initialIsExpanded_def Let_def)

theorem collapsible_toggle_round_trip_witness:
  "clickToggle (CollapsibleContent exampleParse exampleStringify lit exampleStyles
       \<lparr>content = lit ''[1,2]'', maxPreviewLength = Some 3, className = None\<rparr> False) False
   \<and> \<not> clickToggle (CollapsibleContent exampleParse exampleStringify lit exampleStyles
       \<lparr>content = lit ''[1,2]'', maxPreviewLength = Some 3, className = None\<rparr> True) True"
  using collapsible_toggle_round_trip
          [of "\<lparr>content = lit ''[1,2]'', maxPreviewLength = Some 3, className = None\<rparr>"
              exampleParse exampleStringify lit exampleStyles False]
        collapsible_toggle_round_trip
          [of "\<lparr>content = lit ''[1,2]'', maxPreviewLength = Some 3, className = None\<rparr>"
              exampleParse exampleStringify lit exampleStyles True]
  by (simp add: maxPreviewLengthOf_def lit_def)

section \<open>QuotaPage: the two updaters and the loop\<close>

lemma entryAt_setProp:
  "entryAt (setProp obj k v) k' = (if k' = k then Some v else entryAt obj k')"
  by (auto simp: entryAt_def setProp_def split: option.splits)

lemma entryAt_spread: "entryAt (spread obj) k = own obj k"
  by (simp add: entryAt_def spread_def split: option.splits)

lemma own_setProp_other: "k' \<noteq> k \<Longrightarrow> own (setProp obj k v) k' = own obj k'"
  by (simp add: setProp_def)

lemma own_setProp_dom: "dom (own obj) \<subseteq> dom (own (setProp obj k v))"
  by (auto simp: setProp_def)

lemma entryAt_fold_other:
  "k \<notin> key ` set xs \<Longrightarrow>
   entryAt (fold (\<lambda>x obj. setProp obj (key x) (val x)) xs base) k = entryAt base k"
  by (induction xs arbitrary: base) (auto simp: entryAt_setProp)

lemma entryAt_fold_hit:
  "distinct (map key xs) \<Longrightarrow> x \<in> set xs \<Longrightarrow>
   entryAt (fold (\<lambda>x obj. setProp obj (key x) (val x)) xs base) (key x) = Some (val x)"
proof (induction xs arbitrary: base)
  case Nil
  then show ?case by simp
next
  case (Cons a xs)
  show ?case
  proof (cases "x = a")
    case True
    with Cons.prems have "key a \<notin> key ` set xs" by auto
    then have "entryAt (fold (\<lambda>x obj. setProp obj (key x) (val x)) xs
                   (setProp base (key a) (val a))) (key a)
                 = entryAt (setProp base (key a) (val a)) (key a)"
      by (rule entryAt_fold_other)
    with True show ?thesis by (simp add: entryAt_setProp)
  next
    case False
    with Cons.prems have "x \<in> set xs" "distinct (map key xs)" by auto
    from Cons.IH[OF this(2) this(1)] show ?thesis by simp
  qed
qed

lemma entryAt_fold_same:
  "k \<in> key ` set xs \<Longrightarrow>
   entryAt (fold (\<lambda>x obj. setProp obj (key x) v) xs base) k = Some v"
proof (induction xs arbitrary: base)
  case Nil
  then show ?case by simp
next
  case (Cons a xs)
  show ?case
  proof (cases "k \<in> key ` set xs")
    case True
    then show ?thesis by (simp add: Cons.IH)
  next
    case False
    with Cons.prems have "k = key a" by auto
    with False show ?thesis
      by (simp add: entryAt_fold_other[where val = "\<lambda>x. v"] entryAt_setProp)
  qed
qed

lemma own_fold_setProp_other:
  "k \<notin> key ` set xs \<Longrightarrow>
   own (fold (\<lambda>x obj. setProp obj (key x) (val x)) xs base) k = own base k"
  by (induction xs arbitrary: base) (auto simp: own_setProp_other)

lemma own_fold_setProp_dom:
  "dom (own base) \<subseteq> dom (own (fold (\<lambda>x obj. setProp obj (key x) (val x)) xs base))"
proof (induction xs arbitrary: base)
  case Nil
  then show ?case by simp
next
  case (Cons x xs)
  show ?case
    using own_setProp_dom[of base "key x" "val x"] Cons.IH[of "setProp base (key x) (val x)"]
    by auto
qed

lemma markLoading_entry:
  "entryAt (markLoading c fs prev) k =
     (if k \<in> name ` set fs then Some (buildLoadingState c) else own prev k)"
  unfolding markLoading_def
  by (simp add: entryAt_fold_same[where key = name]
        entryAt_fold_other[where key = name and val = "\<lambda>x. buildLoadingState c"]
        entryAt_spread)

lemma markLoading_own_other:
  "k \<notin> name ` set fs \<Longrightarrow> own (markLoading c fs prev) k = own prev k"
  unfolding markLoading_def
  by (simp add: own_fold_setProp_other[where key = name and val = "\<lambda>x. buildLoadingState c"]
        spread_def)

lemma markLoading_own_dom: "dom (own prev) \<subseteq> dom (own (markLoading c fs prev))"
  unfolding markLoading_def
  using own_fold_setProp_dom[where key = name and val = "\<lambda>x. buildLoadingState c"
          and base = "spread prev" and xs = fs]
  by (simp add: spread_def)

lemma resultName_fetchOne: "resultName (fetchOne t c f) = name f"
  by (simp add: resultName_def fetchOne_def split: sum.splits)

lemma mergeResults_own_other:
  "k \<notin> resultName ` set rs \<Longrightarrow> own (mergeResults t c rs prev) k = own prev k"
  unfolding mergeResults_def
  by (simp add: own_fold_setProp_other[where key = resultName and val = "resultState t c"]
        spread_def)

lemma mergeResults_own_dom: "dom (own prev) \<subseteq> dom (own (mergeResults t c rs prev))"
  unfolding mergeResults_def
  using own_fold_setProp_dom[where key = resultName and val = "resultState t c"
          and base = "spread prev" and xs = rs]
  by (simp add: spread_def)

lemma mergeResults_hit:
  assumes "distinct (map resultName rs)" "r \<in> set rs"
  shows "entryAt (mergeResults t c rs prev) (resultName r) = Some (resultState t c r)"
  unfolding mergeResults_def
  using assms by (rule entryAt_fold_hit[where key = resultName and val = "resultState t c"])

lemma names_fetched: "map resultName (map (fetchOne t c) fs) = map name fs"
  by (simp add: resultName_fetchOne)

lemma refreshLoop_aborted: "refreshLoop e t i cs fl True w = (True, w)"
  by (cases cs) auto

lemma providerPass_flag:
  "fst (providerPass e t i c fs w) = abortDuring e (AwaitQuota i)"
  by (simp add: providerPass_def awaitAt_def Let_def)

lemma providerPass_abort:
  "abortDuring e (AwaitQuota i) \<Longrightarrow>
   providerPass e t i c fs w =
     (True, issueQuotaRequests c fs (callSetter (storeSetter c) (markLoading c fs) w))"
  by (simp add: providerPass_def awaitAt_def Let_def)

lemma providerPass_merge:
  "\<not> abortDuring e (AwaitQuota i) \<Longrightarrow>
   providerPass e t i c fs w =
     (False, callSetter (storeSetter c) (mergeResults t c (map (fetchOne t c) fs))
               (issueQuotaRequests c fs (callSetter (storeSetter c) (markLoading c fs) w)))"
  by (simp add: providerPass_def awaitAt_def Let_def)

lemma refreshLoop_append:
  "refreshLoop e t i (pre @ post) fl ab w =
     (case refreshLoop e t i pre fl ab w of
        (ab', w') \<Rightarrow> if ab' then (ab', w') else refreshLoop e t (i + length pre) post fl ab' w')"
proof (induction pre arbitrary: i ab w)
  case Nil
  then show ?case by (simp add: refreshLoop_aborted)
next
  case (Cons c pre)
  show ?case
    by (simp add: Cons.IH Let_def split: prod.splits)
qed

lemma refreshLoop_no_abort:
  "(\<And>j. i \<le> j \<Longrightarrow> j < i + length cs \<Longrightarrow> \<not> abortDuring e (AwaitQuota j)) \<Longrightarrow>
   \<not> fst (refreshLoop e t i cs fl False w)"
proof (induction cs arbitrary: i w)
  case Nil
  then show ?case by simp
next
  case (Cons c cs)
  have here: "\<not> abortDuring e (AwaitQuota i)" using Cons.prems[of i] by simp
  have rest: "\<not> fst (refreshLoop e t (i + 1) cs fl False w')" for w'
    using Cons.prems by (intro Cons.IH) auto
  show ?case using here rest
    by (simp add: Let_def providerPass_merge)
qed

lemma callSetter_store:
  "quotaStore (callSetter key upd w) s = (if s = key then upd (quotaStore w key) else quotaStore w s)"
  by (simp add: callSetter_def)

lemma providerPass_other_store:
  "s \<noteq> storeSetter c \<Longrightarrow> quotaStore (snd (providerPass e t i c fs w)) s = quotaStore w s"
  by (simp add: providerPass_def Let_def callSetter_store issueQuotaRequests_def)

lemma providerPass_own_frame:
  "s \<noteq> storeSetter c \<or> k \<notin> name ` set fs \<Longrightarrow>
   own (quotaStore (snd (providerPass e t i c fs w)) s) k = own (quotaStore w s) k"
  by (auto simp: providerPass_def Let_def callSetter_store issueQuotaRequests_def
        markLoading_own_other mergeResults_own_other image_image resultName_fetchOne)

lemma providerPass_own_dom:
  "dom (own (quotaStore w s)) \<subseteq> dom (own (quotaStore (snd (providerPass e t i c fs w)) s))"
proof (cases "s = storeSetter c")
  case True
  have d1: "dom (own (quotaStore w s)) \<subseteq> dom (own (markLoading c fs (quotaStore w s)))"
    by (rule markLoading_own_dom)
  have d2: "dom (own (markLoading c fs (quotaStore w s)))
        \<subseteq> dom (own (mergeResults t c rs (markLoading c fs (quotaStore w s))))" for rs
    by (rule mergeResults_own_dom)
  have "quotaStore (snd (providerPass e t i c fs w)) s =
          (if abortDuring e (AwaitQuota i) then markLoading c fs (quotaStore w s)
           else mergeResults t c (map (fetchOne t c) fs) (markLoading c fs (quotaStore w s)))"
    using True
    by (simp add: providerPass_def awaitAt_def Let_def callSetter_store issueQuotaRequests_def)
  then show ?thesis
    using d1 subset_trans[OF d1 d2] by simp
next
  case False
  then show ?thesis by (simp add: providerPass_other_store)
qed

lemma refreshLoop_step:
  "refreshLoop e t i (c # cs) fl ab w =
     (if ab then (ab, w)
      else if filter (filterFn c) fl = [] then refreshLoop e t (i + 1) cs fl ab w
      else if fst (providerPass e t i c (filter (filterFn c) fl) w)
        then providerPass e t i c (filter (filterFn c) fl) w
      else refreshLoop e t (i + 1) cs fl False
             (snd (providerPass e t i c (filter (filterFn c) fl) w)))"
  by (auto simp: Let_def split: prod.splits)

lemma refreshLoop_other_store:
  "s \<notin> storeSetter ` set cs \<Longrightarrow>
   quotaStore (snd (refreshLoop e t i cs fl ab w)) s = quotaStore w s"
proof (induction cs arbitrary: i ab w)
  case Nil
  then show ?case by simp
next
  case (Cons c cs)
  have here: "s \<noteq> storeSetter c" and rest: "s \<notin> storeSetter ` set cs"
    using Cons.prems by auto
  show ?case
    unfolding refreshLoop_step
    by (simp add: Cons.IH[OF rest] providerPass_other_store[OF here])
qed

lemma refreshLoop_own_frame:
  "(\<And>c. c \<in> set cs \<Longrightarrow> storeSetter c = s \<Longrightarrow> k \<notin> name ` set (filter (filterFn c) fl)) \<Longrightarrow>
   own (quotaStore (snd (refreshLoop e t i cs fl ab w)) s) k = own (quotaStore w s) k"
proof (induction cs arbitrary: i ab w)
  case Nil
  then show ?case by simp
next
  case (Cons c cs)
  have here: "s \<noteq> storeSetter c \<or> k \<notin> name ` set (filter (filterFn c) fl)"
    using Cons.prems[of c] by auto
  have rest: "own (quotaStore (snd (refreshLoop e t (Suc i) cs fl ab' w')) s) k
                = own (quotaStore w' s) k" for ab' w'
    using Cons.prems by (intro Cons.IH) auto
  show ?case
    unfolding refreshLoop_step
    by (simp add: rest providerPass_own_frame[OF here])
qed

lemma refreshLoop_own_dom:
  "dom (own (quotaStore w s)) \<subseteq> dom (own (quotaStore (snd (refreshLoop e t i cs fl ab w)) s))"
proof (induction cs arbitrary: i ab w)
  case Nil
  then show ?case by simp
next
  case (Cons c cs)
  let ?p = "providerPass e t i c (filter (filterFn c) fl) w"
  have d1: "dom (own (quotaStore w s)) \<subseteq> dom (own (quotaStore (snd ?p) s))"
    by (rule providerPass_own_dom)
  have d2: "dom (own (quotaStore (snd ?p) s))
              \<subseteq> dom (own (quotaStore (snd (refreshLoop e t (Suc i) cs fl False (snd ?p))) s))"
    by (rule Cons.IH)
  have d3: "dom (own (quotaStore w s))
              \<subseteq> dom (own (quotaStore (snd (refreshLoop e t (Suc i) cs fl ab' w)) s))" for ab'
    by (rule Cons.IH)
  show ?case
    unfolding refreshLoop_step
    using d1 d3 subset_trans[OF d1 d2] by simp
qed

lemma loadConfig_never_throws: "\<exists>w'. loadConfig t out w = Inr w'"
  by (cases out) (simp_all add: loadConfig_def loadConfig_settle_def Let_def)

lemma loadConfig_frame:
  "loadConfig t out w = Inr w' \<Longrightarrow>
   quotaStore w' = quotaStore w \<and> files w' = files w \<and> loading w' = loading w
   \<and> refreshingAll w' = refreshingAll w \<and> refreshAllAbortRef w' = refreshAllAbortRef w
   \<and> connectionStatus w' = connectionStatus w"
  by (cases out) (auto simp: loadConfig_def loadConfig_settle_def loadConfig_call_def Let_def)

lemma refreshBody_reaches_loop:
  assumes "\<not> abortDuring e AwaitConfig" "\<not> abortDuring e AwaitList"
    and "authFiles e = Inr latestFiles"
  shows "refreshBody e t configs w =
           (case refreshLoop e t 0 configs (filesOf latestFiles) False
                   ((projr (loadConfig t (configYaml e) w))
                      \<lparr>requests := requests (projr (loadConfig t (configYaml e) w)) @ [ReqAuthFilesList],
                       files := filesOf latestFiles\<rparr>) of
              (ab, w4) \<Rightarrow> (ab, None, w4))"
proof -
  obtain w1 where w1: "loadConfig t (configYaml e) w = Inr w1"
    using loadConfig_never_throws by blast
  show ?thesis
    using assms by (simp add: refreshBody_def awaitAt_def Let_def w1)
qed

lemma refreshLoop_abort_at:
  assumes pre: "\<And>j. j < length pre \<Longrightarrow> \<not> abortDuring e (AwaitQuota j)"
    and match: "filter (filterFn c) fl \<noteq> []"
    and abort: "abortDuring e (AwaitQuota (length pre))"
  shows "refreshLoop e t 0 (pre @ c # post) fl False w =
           (True, issueQuotaRequests c (filter (filterFn c) fl)
                    (callSetter (storeSetter c) (markLoading c (filter (filterFn c) fl))
                       (snd (refreshLoop e t 0 pre fl False w))))"
proof -
  obtain ab' w' where l: "refreshLoop e t 0 pre fl False w = (ab', w')"
    by (cases "refreshLoop e t 0 pre fl False w")
  have "\<not> fst (refreshLoop e t 0 pre fl False w)"
    by (rule refreshLoop_no_abort) (use pre in auto)
  with l have nab: "\<not> ab'" by simp
  have "refreshLoop e t 0 (pre @ c # post) fl False w =
          refreshLoop e t (length pre) (c # post) fl False w'"
    using l nab by (simp add: refreshLoop_append)
  also have "\<dots> = (True, issueQuotaRequests c (filter (filterFn c) fl)
                    (callSetter (storeSetter c) (markLoading c (filter (filterFn c) fl)) w'))"
    using match abort by (simp add: Let_def providerPass_abort)
  finally show ?thesis using l by simp
qed

lemma refreshAllQuotas_unfold:
  assumes "\<not> refreshingAll w" "connectionStatus w = lit ''connected''"
    and "refreshBody e t configs
           (w\<lparr>refreshingAll := True, error := [], refreshAllAbortRef := Some SetAborted\<rparr>)
         = (ab, thrown, w1)"
  shows "refreshAllQuotas e t configs w =
           (let w2 = (case thrown of None \<Rightarrow> w1
                      | Some err \<Rightarrow> w1\<lparr>error := errorMessageOr t ''notification.refresh_failed'' err\<rparr>)
            in if \<not> ab then w2\<lparr>refreshingAll := False, refreshAllAbortRef := None\<rparr> else w2)"
  using assms by (simp add: refreshAllQuotas_def disableControls_def Let_def)

lemma providerPass_flags:
  "refreshingAll (snd (providerPass e t i c fs w)) = refreshingAll w
   \<and> refreshAllAbortRef (snd (providerPass e t i c fs w)) = refreshAllAbortRef w
   \<and> files (snd (providerPass e t i c fs w)) = files w
   \<and> loading (snd (providerPass e t i c fs w)) = loading w
   \<and> error (snd (providerPass e t i c fs w)) = error w
   \<and> connectionStatus (snd (providerPass e t i c fs w)) = connectionStatus w"
  by (simp add: providerPass_def Let_def callSetter_def issueQuotaRequests_def)

lemma refreshLoop_flags:
  "refreshingAll (snd (refreshLoop e t i cs fl ab w)) = refreshingAll w
   \<and> refreshAllAbortRef (snd (refreshLoop e t i cs fl ab w)) = refreshAllAbortRef w
   \<and> files (snd (refreshLoop e t i cs fl ab w)) = files w
   \<and> loading (snd (refreshLoop e t i cs fl ab w)) = loading w
   \<and> error (snd (refreshLoop e t i cs fl ab w)) = error w
   \<and> connectionStatus (snd (refreshLoop e t i cs fl ab w)) = connectionStatus w"
proof (induction cs arbitrary: i ab w)
  case Nil
  then show ?case by simp
next
  case (Cons c cs)
  show ?case
    using providerPass_flags[of e t i c "filter (filterFn c) fl" w]
    by (auto simp: Let_def Cons.IH split: prod.splits)
qed


lemma providerPass_requests:
  "requests (snd (providerPass e t i c fs w)) =
     requests w @ map (\<lambda>file. ReqQuota (storeSetter c) (name file)) fs"
  by (simp add: providerPass_def Let_def callSetter_def issueQuotaRequests_def)

lemma refreshLoop_requests_mono:
  "set (requests w) \<subseteq> set (requests (snd (refreshLoop e t i cs fl ab w)))"
proof (induction cs arbitrary: i ab w)
  case Nil
  then show ?case by simp
next
  case (Cons c cs)
  have step: "set (requests w) \<subseteq> set (requests (snd (providerPass e t i c fs w)))" for fs
    by (simp add: providerPass_requests)
  have rest: "set (requests w') \<subseteq> set (requests (snd (refreshLoop e t (i + 1) cs fl ab' w')))"
    for ab' w'
    by (rule Cons.IH)
  show ?case
  proof (cases "ab \<or> filter (filterFn c) fl = []")
    case True
    then show ?thesis using rest[of w ab] by (auto simp: Let_def)
  next
    case False
    let ?p = "providerPass e t i c (filter (filterFn c) fl) w"
    show ?thesis
    proof (cases "fst ?p")
      case True
      with False have "snd (refreshLoop e t i (c # cs) fl ab w) = snd ?p"
        by (simp add: Let_def split_beta)
      then show ?thesis using step by (simp only:)
    next
      case nab: False
      with False have "snd (refreshLoop e t i (c # cs) fl ab w)
                       = snd (refreshLoop e t (i + 1) cs fl (fst ?p) (snd ?p))"
        by (simp add: Let_def split_beta)
      then show ?thesis
        using subset_trans[OF step rest[of "snd ?p" "fst ?p"]] by (simp only:)
    qed
  qed
qed

lemma refreshLoop_merge_at:
  assumes pre: "\<And>j. j \<le> length pre \<Longrightarrow> \<not> abortDuring e (AwaitQuota j)"
    and match: "filter (filterFn c) fl \<noteq> []"
  shows "refreshLoop e t 0 (pre @ c # post) fl False w =
           refreshLoop e t (length pre + 1) post fl False
             (snd (providerPass e t (length pre) c (filter (filterFn c) fl)
                     (snd (refreshLoop e t 0 pre fl False w))))"
proof -
  obtain ab' w' where l: "refreshLoop e t 0 pre fl False w = (ab', w')"
    by (cases "refreshLoop e t 0 pre fl False w")
  have "\<not> fst (refreshLoop e t 0 pre fl False w)"
    by (rule refreshLoop_no_abort) (use pre in auto)
  with l have nab: "\<not> ab'" by simp
  have here: "\<not> abortDuring e (AwaitQuota (length pre))" using pre by simp
  have "refreshLoop e t 0 (pre @ c # post) fl False w =
          refreshLoop e t (length pre) (c # post) fl False w'"
    using l nab by (simp add: refreshLoop_append)
  also have "\<dots> = refreshLoop e t (length pre + 1) post fl False
             (snd (providerPass e t (length pre) c (filter (filterFn c) fl) w'))"
    using match here by (simp add: Let_def providerPass_merge)
  finally show ?thesis using l by simp
qed

lemma providerPass_entry:
  assumes "\<not> abortDuring e (AwaitQuota i)" "distinct (map name fs)" "item \<in> set fs"
  shows "entryAt (quotaStore (snd (providerPass e t i c fs w)) (storeSetter c)) (name item)
           = Some (resultState t c (fetchOne t c item))"
proof -
  have d: "distinct (map resultName (map (fetchOne t c) fs))"
    using assms(2) by (simp only: names_fetched)
  have m: "fetchOne t c item \<in> set (map (fetchOne t c) fs)"
    using assms(3) by simp
  from mergeResults_hit[OF d m, of t c]
  show ?thesis
    using assms(1)
    by (simp add: providerPass_merge callSetter_store resultName_fetchOne)
qed

lemma resultState_fetchOne:
  "resultState t c (fetchOne t c file) =
     (case fetchQuota c file of
        Inr data \<Rightarrow> buildSuccessState c data
      | Inl (ErrorInstance m s) \<Rightarrow>
          buildErrorState c (if m \<noteq> [] then m else t ''common.unknown_error'') s
      | Inl (OtherValue s) \<Rightarrow> buildErrorState c (t ''common.unknown_error'') s)"
  by (simp add: resultState_def fetchOne_def errorMessageOr_def thrownStatus_def
        split: sum.splits js_thrown.splits)

lemma refreshAllQuotas_via_loop:
  fixes configs :: "('f, 'd, 'q) QuotaConfig list"
  assumes guard: "\<not> refreshingAll w" "connectionStatus w = lit ''connected''"
    and early: "\<not> abortDuring e AwaitConfig" "\<not> abortDuring e AwaitList"
    and list: "authFiles e = Inr latestFiles"
  shows "\<exists>w3. quotaStore w3 = quotaStore w
          \<and> quotaStore (refreshAllQuotas e t configs w)
              = quotaStore (snd (refreshLoop e t 0 configs (filesOf latestFiles) False w3))
          \<and> requests (refreshAllQuotas e t configs w)
              = requests (snd (refreshLoop e t 0 configs (filesOf latestFiles) False w3))"
proof -
  let ?w0 = "w\<lparr>refreshingAll := True, error := [], refreshAllAbortRef := Some SetAborted\<rparr>"
  obtain w1 where w1: "loadConfig t (configYaml e) ?w0 = Inr w1"
    using loadConfig_never_throws by blast
  define w3 where
    "w3 = w1\<lparr>requests := requests w1 @ [ReqAuthFilesList], files := filesOf latestFiles\<rparr>"
  have body: "refreshBody e t configs ?w0 =
                  (case refreshLoop e t 0 configs (filesOf latestFiles) False w3 of
                     (ab, w4) \<Rightarrow> (ab, None, w4))"
    using refreshBody_reaches_loop[OF early list, of t configs ?w0] by (simp add: w1 w3_def)
  obtain ab w4 where l: "refreshLoop e t 0 configs (filesOf latestFiles) False w3 = (ab, w4)"
    by (cases "refreshLoop e t 0 configs (filesOf latestFiles) False w3")
  have "refreshBody e t configs ?w0 = (ab, None, w4)"
    by (simp only: body l prod.case)
  from refreshAllQuotas_unfold[OF guard this]
  have "quotaStore (refreshAllQuotas e t configs w) = quotaStore w4
        \<and> requests (refreshAllQuotas e t configs w) = requests w4"
    by simp
  moreover have "quotaStore w3 = quotaStore w"
    using loadConfig_frame[OF w1] by (simp add: w3_def)
  ultimately show ?thesis using l by (intro exI[of _ w3]) simp
qed


text \<open>The equations that run the definitions on a concrete input.\<close>

lemmas example_defs = exampleConfig_def exampleFiles_def exampleEnv_def exampleWorld_def
  fetchSeven_def neverAbort_def

lemmas run_defs = refreshAllQuotas_def refreshBody_def loadConfig_def loadConfig_settle_def
  loadConfig_call_def disableControls_def awaitAt_def providerPass_def callSetter_def
  issueQuotaRequests_def markLoading_def mergeResults_def fetchOne_def resultName_def
  resultState_def errorMessageOr_def thrownStatus_def filesOf_def Let_def
  spread_def setProp_def entryAt_def emptyObject_def

lemma refreshAllQuotas_store:
  "quotaStore (refreshAllQuotas e t configs w) =
     (if refreshingAll w \<or> disableControls w then quotaStore w
      else quotaStore (snd (snd (refreshBody e t configs
             (w\<lparr>refreshingAll := True, error := [], refreshAllAbortRef := Some SetAborted\<rparr>)))))"
  by (simp add: refreshAllQuotas_def Let_def split_beta split: option.splits)

lemma refreshBody_store:
  "quotaStore (snd (snd (refreshBody e t configs w))) =
     (case authFiles e of
        Inl err \<Rightarrow> quotaStore w
      | Inr latestFiles \<Rightarrow>
          if abortDuring e AwaitConfig \<or> abortDuring e AwaitList then quotaStore w
          else quotaStore (snd (refreshLoop e t 0 configs (filesOf latestFiles) False
                 ((projr (loadConfig t (configYaml e) w))
                    \<lparr>requests := requests (projr (loadConfig t (configYaml e) w)) @ [ReqAuthFilesList],
                     files := filesOf latestFiles\<rparr>))))"
proof -
  obtain w1 where w1: "loadConfig t (configYaml e) w = Inr w1"
    using loadConfig_never_throws by blast
  have "quotaStore w1 = quotaStore w" using loadConfig_frame[OF w1] by simp
  then show ?thesis
    by (simp add: refreshBody_def awaitAt_def Let_def w1 split_beta split: sum.splits)
qed

section \<open>QuotaPage: loadConfig and loadFiles\<close>

text \<open>
  C5. \<open>loadFiles\<close> first sets \<open>loading\<close> and clears \<open>error\<close>. When the request settles,
  on whatever the state is then, a fulfilled request replaces \<open>files\<close> by the list of the
  response, the empty list when the response or its \<open>files\<close> field is absent; a rejected
  one writes the message of the thrown \<open>Error\<close> into \<open>error\<close>, over any value (the
  translation of \<open>notification.refresh_failed\<close> when the thrown value is not an
  \<open>Error\<close>); either way \<open>loading\<close> is cleared.
\<close>

theorem loadFiles_effects:
  "loading (loadFiles_call w) \<and> error (loadFiles_call w) = []
   \<and> files (loadFiles_settle t (Inr (Data (Some fs))) w') = fs
   \<and> files (loadFiles_settle t (Inr (Data None)) w') = []
   \<and> files (loadFiles_settle t (Inr NoData) w') = []
   \<and> error (loadFiles_settle t (Inl (ErrorInstance m s)) w') = m
   \<and> error (loadFiles_settle t (Inl (OtherValue s)) w') = t ''notification.refresh_failed''
   \<and> \<not> loading (loadFiles_settle t outcome w')
   \<and> files (loadFiles t (Inr data) w) = filesOf data
   \<and> error (loadFiles t (Inr data) w) = []
   \<and> error (loadFiles t (Inl (ErrorInstance m s)) w) = m
   \<and> \<not> loading (loadFiles t outcome w)"
  by (simp add: loadFiles_def loadFiles_call_def loadFiles_settle_def filesOf_def
        errorMessageOr_def Let_def split: sum.splits)

text \<open>
  C10. When the request of \<open>loadFiles\<close> is rejected, \<open>files\<close> is what it was before the
  call: settling writes \<open>error\<close> and clears \<open>loading\<close> and nothing else, and the call
  itself leaves \<open>files\<close> alone.
\<close>

theorem loadFiles_failure_keeps_files:
  "files (loadFiles t (Inl err) w) = files w
   \<and> loadFiles_settle t (Inl err) w'
        = w'\<lparr>error := errorMessageOr t ''notification.refresh_failed'' err, loading := False\<rparr>
   \<and> files (loadFiles_call w) = files w
   \<and> loadFiles t (Inl err) w
        = w\<lparr>loading := False, error := errorMessageOr t ''notification.refresh_failed'' err,
             requests := requests w @ [ReqAuthFilesList]\<rparr>"
  by (simp add: loadFiles_def loadFiles_call_def loadFiles_settle_def Let_def)

text \<open>
  C6. \<open>loadConfig\<close> returns normally whatever the request does. When the request is
  rejected, \<open>error\<close> becomes the message of the failure (of the thrown \<open>Error\<close>, or the
  translation of \<open>notification.refresh_failed\<close> for any other thrown value) if \<open>error\<close>
  is empty at that moment, and the state is left as it is if \<open>error\<close> is already set.
\<close>

theorem loadConfig_first_error_wins:
  "(\<exists>w'. loadConfig t outcome w = Inr w')
   \<and> (error w = [] \<longrightarrow>
        loadConfig_settle t (Inl (ErrorInstance m s)) w = Inr (w\<lparr>error := m\<rparr>)
        \<and> loadConfig_settle t (Inl (OtherValue s)) w
            = Inr (w\<lparr>error := t ''notification.refresh_failed''\<rparr>)
        \<and> loadConfig t (Inl (ErrorInstance m s)) w = Inr ((loadConfig_call w)\<lparr>error := m\<rparr>))
   \<and> (error w \<noteq> [] \<longrightarrow>
        loadConfig_settle t (Inl err) w = Inr w
        \<and> loadConfig t (Inl err) w = Inr (loadConfig_call w)
        \<and> error (loadConfig_call w) = error w)
   \<and> loadConfig_settle t (Inr ()) w = Inr w"
  by (cases outcome)
     (simp_all add: loadConfig_def loadConfig_settle_def loadConfig_call_def
        errorMessageOr_def Let_def)

theorem loadConfig_first_error_wins_witness:
  "error exampleWorld = []
   \<and> loadConfig_settle lit (Inl (ErrorInstance (lit ''Network Error'') None)) exampleWorld
        = Inr (exampleWorld\<lparr>error := lit ''Network Error''\<rparr>)
   \<and> error (exampleWorld\<lparr>error := lit ''first''\<rparr>) \<noteq> []
   \<and> loadConfig_settle lit (Inl (ErrorInstance (lit ''Network Error'') None))
          (exampleWorld\<lparr>error := lit ''first''\<rparr>)
        = Inr (exampleWorld\<lparr>error := lit ''first''\<rparr>)"
  using loadConfig_first_error_wins[of lit "Inr ()" exampleWorld "lit ''Network Error''" None]
        loadConfig_first_error_wins[of lit "Inr ()" "exampleWorld\<lparr>error := lit ''first''\<rparr>" _ _
              "ErrorInstance (lit ''Network Error'') None"]
  by (simp add: exampleWorld_def) (simp add: lit_def)

section \<open>QuotaPage: refreshAllQuotas\<close>

text \<open>
  C3. When \<open>refreshingAll\<close> is set or the connection status is not \<open>connected\<close>,
  \<open>refreshAllQuotas\<close> returns the state it was given: no cell, no quota map and no
  request log entry differs.
\<close>

theorem refreshAllQuotas_guard_noop:
  "refreshingAll w \<or> connectionStatus w \<noteq> lit ''connected'' \<Longrightarrow>
     refreshAllQuotas e t configs w = w
     \<and> requests (refreshAllQuotas e t configs w) = requests w
     \<and> quotaStore (refreshAllQuotas e t configs w) = quotaStore w"
  by (simp add: refreshAllQuotas_def disableControls_def)

theorem refreshAllQuotas_guard_noop_witness:
  "refreshingAll (exampleWorld\<lparr>refreshingAll := True\<rparr>)
   \<and> refreshAllQuotas (exampleEnv neverAbort) lit
        [exampleConfig ''setCodexQuota'' ''codex'' fetchSeven] (exampleWorld\<lparr>refreshingAll := True\<rparr>)
      = exampleWorld\<lparr>refreshingAll := True\<rparr>
   \<and> connectionStatus (exampleWorld\<lparr>connectionStatus := lit ''disconnected''\<rparr>) \<noteq> lit ''connected''
   \<and> refreshAllQuotas (exampleEnv neverAbort) lit
        [exampleConfig ''setCodexQuota'' ''codex'' fetchSeven]
        (exampleWorld\<lparr>connectionStatus := lit ''disconnected''\<rparr>)
      = exampleWorld\<lparr>connectionStatus := lit ''disconnected''\<rparr>"
  using refreshAllQuotas_guard_noop[of "exampleWorld\<lparr>refreshingAll := True\<rparr>" "exampleEnv neverAbort" lit
            "[exampleConfig ''setCodexQuota'' ''codex'' fetchSeven]"]
        refreshAllQuotas_guard_noop[of "exampleWorld\<lparr>connectionStatus := lit ''disconnected''\<rparr>" "exampleEnv neverAbort" lit
            "[exampleConfig ''setCodexQuota'' ''codex'' fetchSeven]"]
  by (simp add: lit_inj)

text \<open>
  What the two updaters and a whole run keep: an own property changes only if its key is
  the name of a fetched file matching a configuration that writes to that object, and the
  own keys of every object only grow.
\<close>

lemma refreshAllQuotas_own_entries_kept:
  fixes c :: "('f, 'd, 'q) QuotaConfig" and configs :: "('f, 'd, 'q) QuotaConfig list"
  shows
  "(k \<notin> name ` set fs \<longrightarrow> own (markLoading c fs prev) k = own prev k)
   \<and> dom (own prev) \<subseteq> dom (own (markLoading c fs prev))
   \<and> (k \<notin> name ` set fs \<longrightarrow>
        own (mergeResults t c (map (fetchOne t c) fs) prev) k = own prev k)
   \<and> dom (own prev) \<subseteq> dom (own (mergeResults t c (map (fetchOne t c) fs) prev))
   \<and> ((\<forall>c' \<in> set configs. storeSetter c' = s \<longrightarrow>
          k \<notin> name ` set (filter (filterFn c')
                  (case authFiles e of Inl err \<Rightarrow> [] | Inr latestFiles \<Rightarrow> filesOf latestFiles)))
        \<longrightarrow> own (quotaStore (refreshAllQuotas e t configs w) s) k = own (quotaStore w s) k)
   \<and> dom (own (quotaStore w s)) \<subseteq> dom (own (quotaStore (refreshAllQuotas e t configs w) s))"
proof -
  have p1: "k \<notin> name ` set fs \<longrightarrow> own (markLoading c fs prev) k = own prev k"
    by (simp add: markLoading_own_other)
  have p2: "dom (own prev) \<subseteq> dom (own (markLoading c fs prev))"
    by (rule markLoading_own_dom)
  have p3: "k \<notin> name ` set fs \<longrightarrow>
              own (mergeResults t c (map (fetchOne t c) fs) prev) k = own prev k"
    by (simp add: mergeResults_own_other image_image resultName_fetchOne)
  have p4: "dom (own prev) \<subseteq> dom (own (mergeResults t c (map (fetchOne t c) fs) prev))"
    by (rule mergeResults_own_dom)
  have lc: "quotaStore (projr (loadConfig t (configYaml e) w0)) = quotaStore w0"
    for w0 :: "('f, 'q) world"
    using loadConfig_never_throws[of t "configYaml e" w0] loadConfig_frame by fastforce
  have p5: "own (quotaStore (refreshAllQuotas e t configs w) s) k = own (quotaStore w s) k"
    if h: "\<forall>c' \<in> set configs. storeSetter c' = s \<longrightarrow>
          k \<notin> name ` set (filter (filterFn c')
                  (case authFiles e of Inl err \<Rightarrow> [] | Inr latestFiles \<Rightarrow> filesOf latestFiles))"
  proof (cases "authFiles e")
    case (Inl err)
    then show ?thesis by (simp add: refreshAllQuotas_store refreshBody_store)
  next
    case (Inr latestFiles)
    have "own (quotaStore (snd (refreshLoop e t 0 configs (filesOf latestFiles) False w3)) s) k
            = own (quotaStore w3 s) k" for w3 :: "('f, 'q) world"
      by (rule refreshLoop_own_frame) (use h Inr in auto)
    then show ?thesis
      using Inr by (simp add: refreshAllQuotas_store refreshBody_store lc)
  qed
  have p6: "dom (own (quotaStore w s))
              \<subseteq> dom (own (quotaStore (refreshAllQuotas e t configs w) s))"
  proof (cases "authFiles e")
    case (Inl err)
    then show ?thesis by (simp add: refreshAllQuotas_store refreshBody_store)
  next
    case (Inr latestFiles)
    have "dom (own (quotaStore w s))
            \<subseteq> dom (own (quotaStore (snd (refreshLoop e t 0 configs (filesOf latestFiles) False
                      (w1\<lparr>requests := r, files := fl\<rparr>))) s))"
      if "quotaStore w1 = quotaStore w" for w1 :: "('f, 'q) world" and r fl
      using refreshLoop_own_dom[of "w1\<lparr>requests := r, files := fl\<rparr>" s e t 0 configs
              "filesOf latestFiles" False] that
      by simp
    then show ?thesis
      using Inr by (simp add: refreshAllQuotas_store refreshBody_store lc)
  qed
  from p1 p2 p3 p4 p5 p6 show ?thesis by blast
qed

text \<open>
  C4 fails on the code for a file named \<open>__proto__\<close>. A first run over a listing with such
  a codex file creates no own key for it: its state becomes the prototype of the codex
  object, where a read of \<open>__proto__\<close> finds it. A second run over a listing without that
  name copies the object in its first updater, the copy has the default prototype, and
  the entry is gone although its key matches no file of the run.
\<close>

theorem refreshAllQuotas_proto_entry_dropped:
  "entryAt (quotaStore
       (refreshAllQuotas protoNameEnv lit
          [exampleConfig ''setCodexQuota'' ''codex'' fetchSeven] exampleWorld)
       ''setCodexQuota'') (lit ''__proto__'') = Some (QSuccess 7)
   \<and> own (quotaStore
       (refreshAllQuotas protoNameEnv lit
          [exampleConfig ''setCodexQuota'' ''codex'' fetchSeven] exampleWorld)
       ''setCodexQuota'') (lit ''__proto__'') = None
   \<and> lit ''__proto__''
       \<notin> name ` set (filter (filterFn (exampleConfig ''setCodexQuota'' ''codex'' fetchSeven))
                       exampleFiles)
   \<and> entryAt (quotaStore
       (refreshAllQuotas (exampleEnv neverAbort) lit
          [exampleConfig ''setCodexQuota'' ''codex'' fetchSeven]
          (refreshAllQuotas protoNameEnv lit
             [exampleConfig ''setCodexQuota'' ''codex'' fetchSeven] exampleWorld))
       ''setCodexQuota'') (lit ''__proto__'') = None
   \<and> entryAt (quotaStore
       (refreshAllQuotas (exampleEnv neverAbort) lit
          [exampleConfig ''setCodexQuota'' ''codex'' fetchSeven]
          (refreshAllQuotas protoNameEnv lit
             [exampleConfig ''setCodexQuota'' ''codex'' fetchSeven] exampleWorld))
       ''setCodexQuota'') (lit ''old.json'') = Some (QSuccess 1)"
  by (simp add: run_defs example_defs protoNameEnv_def lit_inj)

text \<open>
  C1 (as amended). Take a run that reaches the configuration at position \<open>length pre\<close> with
  matching files, and let the abort closure be invoked while the routine waits for that
  configuration's fetches. Then the run ends in the state reached when those fetches were
  issued: the results are not merged, every matching file's entry of that configuration's
  map is still the loading state, the configurations after it play no part in the result
  (the run equals the run without them), and \<open>refreshingAll\<close> and the abort reference
  stay set.
\<close>

theorem refreshAllQuotas_abort_during_fetch:
  fixes c :: "('f, 'd, 'q) QuotaConfig"
  assumes guard: "\<not> refreshingAll w" "connectionStatus w = lit ''connected''"
    and early: "\<not> abortDuring e AwaitConfig" "\<not> abortDuring e AwaitList"
    and list: "authFiles e = Inr latestFiles"
    and pre: "\<forall>j<length pre. \<not> abortDuring e (AwaitQuota j)"
    and match: "filter (filterFn c) (filesOf latestFiles) \<noteq> []"
    and abort: "abortDuring e (AwaitQuota (length pre))"
  shows "refreshAllQuotas e t (pre @ c # post) w = refreshAllQuotas e t (pre @ [c]) w
       \<and> (\<exists>w'. refreshAllQuotas e t (pre @ c # post) w =
                  issueQuotaRequests c (filter (filterFn c) (filesOf latestFiles))
                    (callSetter (storeSetter c)
                       (markLoading c (filter (filterFn c) (filesOf latestFiles))) w'))
       \<and> (\<forall>file \<in> set (filter (filterFn c) (filesOf latestFiles)).
             entryAt (quotaStore (refreshAllQuotas e t (pre @ c # post) w) (storeSetter c))
               (name file) = Some (buildLoadingState c))
       \<and> refreshingAll (refreshAllQuotas e t (pre @ c # post) w)
       \<and> refreshAllAbortRef (refreshAllQuotas e t (pre @ c # post) w) = Some SetAborted"
proof -
  let ?w0 = "w\<lparr>refreshingAll := True, error := [], refreshAllAbortRef := Some SetAborted\<rparr>"
  let ?fs = "filter (filterFn c) (filesOf latestFiles)"
  obtain w1 where w1: "loadConfig t (configYaml e) ?w0 = Inr w1"
    using loadConfig_never_throws by blast
  define w3 where
    "w3 = w1\<lparr>requests := requests w1 @ [ReqAuthFilesList], files := filesOf latestFiles\<rparr>"
  have w3: "refreshingAll w3" "refreshAllAbortRef w3 = Some SetAborted"
    using loadConfig_frame[OF w1] by (simp_all add: w3_def)
  have body: "refreshBody e t configs ?w0 =
                  (case refreshLoop e t 0 configs (filesOf latestFiles) False w3 of
                     (ab, w4) \<Rightarrow> (ab, None, w4))" for configs :: "('f, 'd, 'q) QuotaConfig list"
    using refreshBody_reaches_loop[OF early list, of t configs ?w0] by (simp add: w1 w3_def)
  define w' where "w' = snd (refreshLoop e t 0 pre (filesOf latestFiles) False w3)"
  define end_state where
    "end_state = issueQuotaRequests c ?fs (callSetter (storeSetter c) (markLoading c ?fs) w')"
  have loop: "refreshLoop e t 0 (pre @ c # rest) (filesOf latestFiles) False w3 = (True, end_state)"
    for rest
    unfolding end_state_def w'_def
    by (rule refreshLoop_abort_at) (use pre match abort in auto)
  have run: "refreshAllQuotas e t (pre @ c # rest) w = end_state" for rest
  proof -
    have "refreshBody e t (pre @ c # rest) ?w0 = (True, None, end_state)"
      by (simp only: body loop prod.case)
    from refreshAllQuotas_unfold[OF guard this] show ?thesis by simp
  qed
  have keep: "refreshingAll w' \<and> refreshAllAbortRef w' = Some SetAborted"
    unfolding w'_def using w3 by (simp add: refreshLoop_flags)
  show ?thesis
    using keep
    by (auto simp: run end_state_def issueQuotaRequests_def callSetter_def markLoading_entry)
qed

text \<open>
  C1 as stated fails: with the abort during the fetches of the first configuration, the
  fetched data 7 of \<open>a.json\<close> is not merged; the entry is still the loading state.
\<close>

theorem refreshAllQuotas_abort_merges_counterexample:
  "abortOnlyDuring (AwaitQuota 0) (AwaitQuota 0)
   \<and> fetchQuota (exampleConfig ''setCodexQuota'' ''codex'' fetchSeven)
        \<lparr>name = lit ''a.json'', attrs = ''codex''\<rparr> = Inr 7
   \<and> entryAt (quotaStore
        (refreshAllQuotas (exampleEnv (abortOnlyDuring (AwaitQuota 0))) lit
           [exampleConfig ''setCodexQuota'' ''codex'' fetchSeven,
            exampleConfig ''setClaudeQuota'' ''claude'' fetchSeven] exampleWorld)
        ''setCodexQuota'') (lit ''a.json'') = Some QLoading
   \<and> entryAt (quotaStore
        (refreshAllQuotas (exampleEnv (abortOnlyDuring (AwaitQuota 0))) lit
           [exampleConfig ''setCodexQuota'' ''codex'' fetchSeven,
            exampleConfig ''setClaudeQuota'' ''claude'' fetchSeven] exampleWorld)
        ''setCodexQuota'') (lit ''a.json'') \<noteq> Some (QSuccess 7)"
  by (simp add: run_defs example_defs abortOnlyDuring_def lit_inj)

theorem refreshAllQuotas_abort_during_fetch_witness:
  "abortDuring (exampleEnv (abortOnlyDuring (AwaitQuota 1))) (AwaitQuota 1)
   \<and> refreshAllQuotas (exampleEnv (abortOnlyDuring (AwaitQuota 1))) lit
        ([exampleConfig ''setCodexQuota'' ''codex'' fetchSeven]
           @ exampleConfig ''setClaudeQuota'' ''claude'' fetchSeven
           # [exampleConfig ''setGeminiCliQuota'' ''gemini-cli'' fetchSeven]) exampleWorld
      = refreshAllQuotas (exampleEnv (abortOnlyDuring (AwaitQuota 1))) lit
        ([exampleConfig ''setCodexQuota'' ''codex'' fetchSeven]
           @ [exampleConfig ''setClaudeQuota'' ''claude'' fetchSeven]) exampleWorld
   \<and> entryAt (quotaStore
        (refreshAllQuotas (exampleEnv (abortOnlyDuring (AwaitQuota 1))) lit
        ([exampleConfig ''setCodexQuota'' ''codex'' fetchSeven]
           @ exampleConfig ''setClaudeQuota'' ''claude'' fetchSeven
           # [exampleConfig ''setGeminiCliQuota'' ''gemini-cli'' fetchSeven]) exampleWorld)
        ''setClaudeQuota'') (lit ''c.json'') = Some QLoading
   \<and> refreshingAll
        (refreshAllQuotas (exampleEnv (abortOnlyDuring (AwaitQuota 1))) lit
        ([exampleConfig ''setCodexQuota'' ''codex'' fetchSeven]
           @ exampleConfig ''setClaudeQuota'' ''claude'' fetchSeven
           # [exampleConfig ''setGeminiCliQuota'' ''gemini-cli'' fetchSeven]) exampleWorld)"
  using refreshAllQuotas_abort_during_fetch
      [where w = exampleWorld and e = "exampleEnv (abortOnlyDuring (AwaitQuota 1))"
         and latestFiles = "Data (Some exampleFiles)"
         and pre = "[exampleConfig ''setCodexQuota'' ''codex'' fetchSeven]"
         and c = "exampleConfig ''setClaudeQuota'' ''claude'' fetchSeven"
         and post = "[exampleConfig ''setGeminiCliQuota'' ''gemini-cli'' fetchSeven]"
         and t = lit]
  by (simp add: run_defs example_defs abortOnlyDuring_def lit_inj)

text \<open>
  C2 (as amended). Take a run that reaches the fetches of a configuration whose map no
  later configuration writes to, and one of its matching files, the names of the matching
  files being distinct. A request is issued for every matching file, whatever the other
  fetches do. If the run is not aborted while it waits for these fetches, the file's entry
  at the end is given by its own fetch alone: the success state of its data, or the error
  state with the status of the thrown value and with the message of the thrown \<open>Error\<close>
  when that is not empty; an empty message, like a thrown value that is not an \<open>Error\<close>,
  is replaced by the translation of \<open>common.unknown_error\<close>. If the run is aborted while
  it waits for these fetches, no outcome is recorded and the entry stays the loading state.
\<close>

theorem refreshAllQuotas_records_each_outcome:
  fixes c :: "('f, 'd, 'q) QuotaConfig"
  assumes guard: "\<not> refreshingAll w" "connectionStatus w = lit ''connected''"
    and early: "\<not> abortDuring e AwaitConfig" "\<not> abortDuring e AwaitList"
    and reach: "\<forall>j < length pre. \<not> abortDuring e (AwaitQuota j)"
    and list: "authFiles e = Inr latestFiles"
    and mem: "item \<in> set (filter (filterFn c) (filesOf latestFiles))"
    and dist: "distinct (map name (filter (filterFn c) (filesOf latestFiles)))"
    and ownmap: "storeSetter c \<notin> storeSetter ` set post"
  shows "(\<not> abortDuring e (AwaitQuota (length pre)) \<longrightarrow>
            entryAt (quotaStore (refreshAllQuotas e t (pre @ c # post) w) (storeSetter c))
              (name item) =
            Some (case fetchQuota c item of
                    Inr data \<Rightarrow> buildSuccessState c data
                  | Inl (ErrorInstance m s) \<Rightarrow>
                      buildErrorState c (if m \<noteq> [] then m else t ''common.unknown_error'') s
                  | Inl (OtherValue s) \<Rightarrow> buildErrorState c (t ''common.unknown_error'') s))
       \<and> (abortDuring e (AwaitQuota (length pre)) \<longrightarrow>
            entryAt (quotaStore (refreshAllQuotas e t (pre @ c # post) w) (storeSetter c))
              (name item) = Some (buildLoadingState c))
       \<and> (\<forall>sibling \<in> set (filter (filterFn c) (filesOf latestFiles)).
             ReqQuota (storeSetter c) (name sibling)
               \<in> set (requests (refreshAllQuotas e t (pre @ c # post) w)))"
proof -
  let ?fl = "filesOf latestFiles"
  let ?fs = "filter (filterFn c) ?fl"
  let ?final = "refreshAllQuotas e t (pre @ c # post) w"
  obtain w3 where
    st: "quotaStore ?final = quotaStore (snd (refreshLoop e t 0 (pre @ c # post) ?fl False w3))"
    and rq: "requests ?final = requests (snd (refreshLoop e t 0 (pre @ c # post) ?fl False w3))"
    using refreshAllQuotas_via_loop[OF guard early list, of t "pre @ c # post"] by blast
  define wp where "wp = snd (refreshLoop e t 0 pre ?fl False w3)"
  have match: "?fs \<noteq> []" using mem by (metis empty_iff empty_set)
  have names: "name item \<in> name ` set ?fs" using mem by (rule imageI)
  show ?thesis
  proof (cases "abortDuring e (AwaitQuota (length pre))")
    case True
    define wa where
      "wa = issueQuotaRequests c ?fs (callSetter (storeSetter c) (markLoading c ?fs) wp)"
    have loop: "refreshLoop e t 0 (pre @ c # post) ?fl False w3 = (True, wa)"
      unfolding wa_def wp_def
      by (rule refreshLoop_abort_at) (use reach match True in auto)
    have entry: "entryAt (quotaStore ?final (storeSetter c)) (name item)
                   = Some (buildLoadingState c)"
      using names
      by (simp add: st loop wa_def issueQuotaRequests_def callSetter_store markLoading_entry)
    have reqs: "\<forall>sibling \<in> set ?fs. ReqQuota (storeSetter c) (name sibling) \<in> set (requests ?final)"
      by (simp add: rq loop wa_def issueQuotaRequests_def)
    from True entry reqs show ?thesis by simp
  next
    case False
    define wm where "wm = snd (providerPass e t (length pre) c ?fs wp)"
    have noabort: "\<And>j. j \<le> length pre \<Longrightarrow> \<not> abortDuring e (AwaitQuota j)"
      using reach False by (metis le_neq_implies_less)
    have loop: "refreshLoop e t 0 (pre @ c # post) ?fl False w3 =
                  refreshLoop e t (length pre + 1) post ?fl False wm"
      unfolding wm_def wp_def by (rule refreshLoop_merge_at) (use noabort match in auto)
    have "quotaStore (snd (refreshLoop e t (length pre + 1) post ?fl False wm)) (storeSetter c)
            = quotaStore wm (storeSetter c)"
      by (rule refreshLoop_other_store) (rule ownmap)
    moreover have "entryAt (quotaStore wm (storeSetter c)) (name item)
            = Some (resultState t c (fetchOne t c item))"
      unfolding wm_def by (rule providerPass_entry) (use False dist mem in auto)
    ultimately have entry: "entryAt (quotaStore ?final (storeSetter c)) (name item)
            = Some (resultState t c (fetchOne t c item))"
      by (simp only: st loop)
    have "set (requests wm)
            \<subseteq> set (requests (snd (refreshLoop e t (length pre + 1) post ?fl False wm)))"
      by (rule refreshLoop_requests_mono)
    then have "set (requests wm) \<subseteq> set (requests ?final)"
      by (simp only: rq loop)
    moreover have "ReqQuota (storeSetter c) (name sibling) \<in> set (requests wm)"
      if "sibling \<in> set ?fs" for sibling
      using that unfolding wm_def by (simp add: providerPass_requests)
    ultimately have reqs:
      "\<forall>sibling \<in> set ?fs. ReqQuota (storeSetter c) (name sibling) \<in> set (requests ?final)"
      by blast
    from False entry reqs show ?thesis by (simp only: resultState_fetchOne simp_thms)
  qed
qed

text \<open>
  C2 as stated fails twice. On an \<open>Error\<close> with an empty message and status 503 the entry
  carries the translation of \<open>common.unknown_error\<close>, not the empty message. And when the
  run is aborted while it waits for the fetches, the failure with message \<open>timeout\<close> and
  status 503 is not recorded at all: the entry is the loading state.
\<close>

theorem refreshAllQuotas_empty_message_counterexample:
  "fetchQuota (exampleConfig ''setCodexQuota'' ''codex'' fetchEmptyMessage)
        \<lparr>name = lit ''a.json'', attrs = ''codex''\<rparr> = Inl (ErrorInstance [] (Some 503))
   \<and> entryAt (quotaStore
        (refreshAllQuotas (exampleEnv neverAbort) lit
           [exampleConfig ''setCodexQuota'' ''codex'' fetchEmptyMessage] exampleWorld)
        ''setCodexQuota'') (lit ''a.json'')
      = Some (QError (lit ''common.unknown_error'') (Some 503))
   \<and> entryAt (quotaStore
        (refreshAllQuotas (exampleEnv neverAbort) lit
           [exampleConfig ''setCodexQuota'' ''codex'' fetchEmptyMessage] exampleWorld)
        ''setCodexQuota'') (lit ''a.json'')
      \<noteq> Some (QError [] (Some 503))
   \<and> fetchQuota (exampleConfig ''setCodexQuota'' ''codex'' fetchTimeout)
        \<lparr>name = lit ''a.json'', attrs = ''codex''\<rparr>
      = Inl (ErrorInstance (lit ''timeout'') (Some 503))
   \<and> entryAt (quotaStore
        (refreshAllQuotas (exampleEnv (abortOnlyDuring (AwaitQuota 0))) lit
           [exampleConfig ''setCodexQuota'' ''codex'' fetchTimeout] exampleWorld)
        ''setCodexQuota'') (lit ''a.json'')
      = Some QLoading
   \<and> entryAt (quotaStore
        (refreshAllQuotas (exampleEnv (abortOnlyDuring (AwaitQuota 0))) lit
           [exampleConfig ''setCodexQuota'' ''codex'' fetchTimeout] exampleWorld)
        ''setCodexQuota'') (lit ''a.json'')
      \<noteq> Some (QError (lit ''timeout'') (Some 503))"
  by (simp add: run_defs example_defs fetchEmptyMessage_def fetchTimeout_def
        abortOnlyDuring_def lit_inj)
     (simp add: lit_def)

text \<open>
  The example of the specification in a run that is not aborted: the rejection of
  \<open>a.json\<close> with message \<open>timeout\<close> and status 503 is recorded as such, the success of
  its sibling \<open>b.json\<close> is recorded, and both were requested. In the run aborted during
  these fetches both entries stay the loading state.
\<close>

theorem refreshAllQuotas_records_each_outcome_witness:
  "fetchQuota (exampleConfig ''setCodexQuota'' ''codex'' fetchTimeout)
        \<lparr>name = lit ''a.json'', attrs = ''codex''\<rparr>
      = Inl (ErrorInstance (lit ''timeout'') (Some 503))
   \<and> entryAt (quotaStore
        (refreshAllQuotas (exampleEnv neverAbort) lit
           ([] @ exampleConfig ''setCodexQuota'' ''codex'' fetchTimeout
              # [exampleConfig ''setClaudeQuota'' ''claude'' fetchSeven]) exampleWorld)
        ''setCodexQuota'') (lit ''a.json'')
      = Some (QError (lit ''timeout'') (Some 503))
   \<and> entryAt (quotaStore
        (refreshAllQuotas (exampleEnv neverAbort) lit
           ([] @ exampleConfig ''setCodexQuota'' ''codex'' fetchTimeout
              # [exampleConfig ''setClaudeQuota'' ''claude'' fetchSeven]) exampleWorld)
        ''setCodexQuota'') (lit ''b.json'')
      = Some (QSuccess 7)
   \<and> ReqQuota ''setCodexQuota'' (lit ''b.json'')
        \<in> set (requests
            (refreshAllQuotas (exampleEnv neverAbort) lit
           ([] @ exampleConfig ''setCodexQuota'' ''codex'' fetchTimeout
              # [exampleConfig ''setClaudeQuota'' ''claude'' fetchSeven]) exampleWorld))
   \<and> abortDuring (exampleEnv (abortOnlyDuring (AwaitQuota 0))) (AwaitQuota 0)
   \<and> entryAt (quotaStore
        (refreshAllQuotas (exampleEnv (abortOnlyDuring (AwaitQuota 0))) lit
           ([] @ exampleConfig ''setCodexQuota'' ''codex'' fetchTimeout
              # [exampleConfig ''setClaudeQuota'' ''claude'' fetchSeven]) exampleWorld)
        ''setCodexQuota'') (lit ''a.json'')
      = Some QLoading"
  using refreshAllQuotas_records_each_outcome
      [where w = exampleWorld and e = "exampleEnv neverAbort"
         and latestFiles = "Data (Some exampleFiles)" and pre = "[]"
         and c = "exampleConfig ''setCodexQuota'' ''codex'' fetchTimeout"
         and post = "[exampleConfig ''setClaudeQuota'' ''claude'' fetchSeven]"
         and t = lit and item = "\<lparr>name = lit ''a.json'', attrs = ''codex''\<rparr>"]
     refreshAllQuotas_records_each_outcome
      [where w = exampleWorld and e = "exampleEnv neverAbort"
         and latestFiles = "Data (Some exampleFiles)" and pre = "[]"
         and c = "exampleConfig ''setCodexQuota'' ''codex'' fetchTimeout"
         and post = "[exampleConfig ''setClaudeQuota'' ''claude'' fetchSeven]"
         and t = lit and item = "\<lparr>name = lit ''b.json'', attrs = ''codex''\<rparr>"]
     refreshAllQuotas_records_each_outcome
      [where w = exampleWorld and e = "exampleEnv (abortOnlyDuring (AwaitQuota 0))"
         and latestFiles = "Data (Some exampleFiles)" and pre = "[]"
         and c = "exampleConfig ''setCodexQuota'' ''codex'' fetchTimeout"
         and post = "[exampleConfig ''setClaudeQuota'' ''claude'' fetchSeven]"
         and t = lit and item = "\<lparr>name = lit ''a.json'', attrs = ''codex''\<rparr>"]
  by (simp add: run_defs example_defs fetchTimeout_def abortOnlyDuring_def lit_inj)
     (simp add: lit_def)

end
